theory Spec2Isabelle
  imports Complex_Main "HOL-Library.Multiset"
begin

section \<open>The Rollback workload (fdbserver/workloads/Rollback.actor.cpp)\<close>

text \<open>
  A shallow embedding of \<^verbatim>\<open>RollbackWorkload\<close>. The workload picks a commit proxy and a tLog
  (the unclogged tLog), clogs the links between the proxy and every other tLog, waits a
  third of the clog duration and then kills or clogs the proxy and clogs the unclogged tLog.

  Conventions of the embedding:
  \<^item> a C++ \<^verbatim>\<open>double\<close> is a \<^typ>\<open>real\<close>: the values are finite and arithmetic does not round;
  \<^item> an \<^verbatim>\<open>int\<close> index into a vector is a \<^typ>\<open>nat\<close>;
  \<^item> every call on the simulator, every trace event and every suspension of the actor is
    appended to a history, oldest first;
  \<^item> what the actor reads from outside (the cluster information, the random generator, the
    clock) is given by the world it runs in;
  \<^item> \<^verbatim>\<open>wait\<close> on an actor is sequential composition. An actor can only be cancelled
    while it is suspended; the timeout that cancels the worker is recorded by \<^verbatim>\<open>start\<close>.
    \<^verbatim>\<open>simulateFailure\<close> and \<^verbatim>\<open>rollbackFailureWorker\<close> are the runs that nothing cancels;
    the runs that are cancelled are given by the number of suspensions they pass.
\<close>

subsection \<open>Data\<close>

type_synonym IPAddress = nat

record NetworkAddress =
  ip :: IPAddress
  port :: nat

text \<open>
  Of \<^verbatim>\<open>ServerDBInfo\<close> the workload reads \<^verbatim>\<open>client.commitProxies\<close> and
  \<^verbatim>\<open>logSystemConfig.allPresentLogs()\<close>, and of every interface in them only \<^verbatim>\<open>address()\<close>.
\<close>

record ServerDBInfo =
  commitProxies :: "NetworkAddress list"
  allPresentLogs :: "NetworkAddress list"

datatype Severity = SevInfo

datatype KillType = KillInstantly

datatype ClogMode = ClogAll

datatype ProcessInfo = ProcessAt NetworkAddress

datatype detail = Text string | Address NetworkAddress

datatype event =
    TraceEvent "Severity option" string "(string \<times> detail) list"
  | ClogPair IPAddress IPAddress real
  | ClogInterface IPAddress real ClogMode
  | KillProcess ProcessInfo KillType
  | Delay real
  | DelayUntil real

text \<open>
  The world of one actor. \<open>dbInfo k\<close> is what the \<open>k\<close>-th call of \<^verbatim>\<open>self->dbInfo->get()\<close>
  returns, \<open>randomInts k\<close>, \<open>random01s k\<close> and \<open>exponentials k\<close> are what the \<open>k\<close>-th use of
  the random generator is computed from, \<open>clock\<close> is what \<^verbatim>\<open>now()\<close> returns when the
  worker starts and \<open>simulated\<close> is \<^verbatim>\<open>g_simulator == g_network\<close>.
\<close>

record world =
  dbInfo :: "nat \<Rightarrow> ServerDBInfo"
  reads :: nat
  randomInts :: "nat \<Rightarrow> nat"
  random01s :: "nat \<Rightarrow> real"
  exponentials :: "nat \<Rightarrow> real"
  draws :: nat
  clock :: real
  simulated :: bool
  history :: "event list"

record WorkloadContext =
  clientId :: int
  double_options :: "string \<rightharpoonup> real"
  bool_options :: "string \<rightharpoonup> bool"

record RollbackWorkload =
  enableFailures :: bool
  multiple :: bool
  enabled :: bool
  meanDelay :: real
  clogDuration :: real
  testDuration :: real

subsection \<open>The environment\<close>

definition emit :: "event \<Rightarrow> world \<Rightarrow> world" where
  "emit e w = w\<lparr>history := history w @ [e]\<rparr>"

definition get_dbInfo :: "world \<Rightarrow> ServerDBInfo \<times> world" where
  "get_dbInfo w = (dbInfo w (reads w), w\<lparr>reads := Suc (reads w)\<rparr>)"

text \<open>
  Modelled from the spec: \<^verbatim>\<open>deterministicRandom()->randomInt(min, max)\<close> is declared
  outside this file. It chooses uniformly among the integers from \<open>min\<close> up to, and not
  including, \<open>max\<close>; the raw draw is reduced into that range.
\<close>

definition randomInt :: "nat \<Rightarrow> nat \<Rightarrow> world \<Rightarrow> nat \<times> world" where
  "randomInt lo hi w =
     (lo + randomInts w (draws w) mod (hi - lo), w\<lparr>draws := Suc (draws w)\<rparr>)"

text \<open>
  Modelled from the spec: \<^verbatim>\<open>deterministicRandom()->randomChoice(c)\<close> is declared outside
  this file. It chooses one element of \<open>c\<close> uniformly at random, by a random index.
\<close>

definition randomChoice :: "'a list \<Rightarrow> world \<Rightarrow> 'a \<times> world" where
  "randomChoice c w = (case randomInt 0 (length c) w of (i, w') \<Rightarrow> (c ! i, w'))"

text \<open>
  Modelled from the spec: \<^verbatim>\<open>deterministicRandom()->random01()\<close> is declared outside this
  file. It returns a uniform random number at least 0 and less than 1; the raw draw is
  reduced to its fractional part.
\<close>

definition random01 :: "world \<Rightarrow> real \<times> world" where
  "random01 w = (frac (random01s w (draws w)), w\<lparr>draws := Suc (draws w)\<rparr>)"

text \<open>
  Modelled from the spec: \<^verbatim>\<open>poisson(&lastTime, meanInterval)\<close> is declared outside this
  file. It draws an interval from the exponential distribution with the given mean (the
  mean times a standard exponential variate), advances the anchor \<open>lastTime\<close> by it and
  suspends the actor until the anchor.
\<close>

definition poisson :: "real \<Rightarrow> real \<Rightarrow> world \<Rightarrow> real \<times> world" where
  "poisson lastTime meanInterval w =
     (let last' = lastTime + meanInterval * exponentials w (draws w)
      in (last', emit (DelayUntil last') (w\<lparr>draws := Suc (draws w)\<rparr>)))"

text \<open>
  Modelled from the spec: \<^verbatim>\<open>getOption(options, key, default)\<close> is declared outside this
  file. It returns the value the options give to the key, and the default when the options
  do not hold the key. An option that is present carries its parsed value.
\<close>

definition getOption :: "(string \<rightharpoonup> 'a) \<Rightarrow> string \<Rightarrow> 'a \<Rightarrow> 'a" where
  "getOption opts key dflt = (case opts key of None \<Rightarrow> dflt | Some v \<Rightarrow> v)"

definition getProcessByAddress :: "NetworkAddress \<Rightarrow> ProcessInfo" where
  "getProcessByAddress a = ProcessAt a"

subsection \<open>The constructor\<close>

definition RollbackWorkload_init :: "WorkloadContext \<Rightarrow> RollbackWorkload" where
  "RollbackWorkload_init wcx =
     \<lparr> enableFailures = getOption (bool_options wcx) ''enableFailures'' False,
       multiple = getOption (bool_options wcx) ''multiple'' True,
       enabled = (clientId wcx = 0),
       meanDelay = getOption (double_options wcx) ''meanDelay'' 20,
       clogDuration = getOption (double_options wcx) ''clogDuration'' 3,
       testDuration = getOption (double_options wcx) ''testDuration'' 10 \<rparr>"

subsection \<open>simulateFailure\<close>

text \<open>
  The loop of lines 73 to 78: is there a tLog other than the one at \<open>utIndex\<close>, at an index
  from \<open>t\<close> on, whose IP is the proxy's?
\<close>

function sharedIPs :: "NetworkAddress list \<Rightarrow> NetworkAddress \<Rightarrow> nat \<Rightarrow> nat \<Rightarrow> bool" where
  "sharedIPs tlogs proxy utIndex t =
     (if t < length tlogs then
        (if t \<noteq> utIndex then
           (if ip (tlogs ! t) = ip proxy then True
            else sharedIPs tlogs proxy utIndex (Suc t))
         else sharedIPs tlogs proxy utIndex (Suc t))
      else False)"
  by pat_completeness auto
termination
  by (relation "measure (\<lambda>(tlogs, proxy, utIndex, t). length tlogs - t)") auto

text \<open>The loop of lines 84 to 90: clog the pair of the proxy and every other tLog.\<close>

function clogOthers ::
  "real \<Rightarrow> NetworkAddress list \<Rightarrow> NetworkAddress \<Rightarrow> nat \<Rightarrow> nat \<Rightarrow> world \<Rightarrow> world" where
  "clogOthers d tlogs proxy utIndex t w =
     (if t < length tlogs then
        clogOthers d tlogs proxy utIndex (Suc t)
          (if t \<noteq> utIndex then emit (ClogPair (ip proxy) (ip (tlogs ! t)) d) w else w)
      else w)"
  by pat_completeness auto
termination
  by (relation "measure (\<lambda>(d, tlogs, proxy, utIndex, t, w). length tlogs - t)") auto

text \<open>
  Lines 60 to 78, the selection: either the actor returns early after one trace event, or
  it goes on with the tLogs, the proxy, the index of the unclogged tLog and its address.
\<close>

datatype selection =
    Abort
  | Selected "NetworkAddress list" NetworkAddress nat NetworkAddress

definition unable :: "string \<Rightarrow> event" where
  "unable reason = TraceEvent (Some SevInfo) ''UnableToTriggerRollback'' [(''Reason'', Text reason)]"

definition sample :: "world \<Rightarrow> selection \<times> world" where
  "sample w0 =
     (case get_dbInfo w0 of (system, w1) \<Rightarrow>
        let tlogs = allPresentLogs system in
        if tlogs = [] \<or> commitProxies system = [] then
          (Abort, emit (unable ''No tlogs in System Map'') w1)
        else
          (case randomChoice (commitProxies system) w1 of (proxy, w2) \<Rightarrow>
           case randomInt 0 (length tlogs) w2 of (utIndex, w3) \<Rightarrow>
             let uncloggedTLog = tlogs ! utIndex in
             if sharedIPs tlogs proxy utIndex 0 then
               (Abort, emit (unable ''proxy-clogged tLog shared IPs'') w3)
             else (Selected tlogs proxy utIndex uncloggedTLog, w3)))"

text \<open>Lines 97 to 103: kill the proxy and clog the unclogged tLog, or clog both.\<close>

definition escalate :: "RollbackWorkload \<Rightarrow> NetworkAddress \<Rightarrow> NetworkAddress \<Rightarrow> world \<Rightarrow> world" where
  "escalate self proxy uncloggedTLog w =
     (if enableFailures self then
        emit (ClogInterface (ip uncloggedTLog) (clogDuration self) ClogAll)
          (emit (KillProcess (getProcessByAddress proxy) KillInstantly) w)
      else
        emit (ClogInterface (ip uncloggedTLog) (clogDuration self) ClogAll)
          (emit (ClogInterface (ip proxy) (clogDuration self) ClogAll) w))"

text \<open>Lines 80 to 104: what the actor does once the selection has not returned early.\<close>

definition attempting :: "NetworkAddress \<Rightarrow> NetworkAddress \<Rightarrow> event" where
  "attempting proxy uncloggedTLog =
     TraceEvent None ''AttemptingToTriggerRollback''
       [(''CommitProxy'', Address proxy), (''UncloggedTLog'', Address uncloggedTLog)]"

definition trigger ::
  "RollbackWorkload \<Rightarrow> NetworkAddress list \<Rightarrow> NetworkAddress \<Rightarrow> nat \<Rightarrow> NetworkAddress \<Rightarrow> world \<Rightarrow> world" where
  "trigger self tlogs proxy utIndex uncloggedTLog w3 =
     (let w4 = emit (attempting proxy uncloggedTLog) w3;
          w5 = clogOthers (clogDuration self) tlogs proxy utIndex 0 w4;
          w6 = emit (Delay (clogDuration self / 3)) w5
      in case get_dbInfo w6 of (system, w7) \<Rightarrow> escalate self proxy uncloggedTLog w7)"

definition simulateFailure :: "RollbackWorkload \<Rightarrow> world \<Rightarrow> world" where
  "simulateFailure self w =
     (case sample w of
        (Abort, w') \<Rightarrow> w'
      | (Selected tlogs proxy utIndex uncloggedTLog, w') \<Rightarrow>
          trigger self tlogs proxy utIndex uncloggedTLog w')"

subsection \<open>rollbackFailureWorker and start\<close>

text \<open>
  The loop of lines 111 to 114. It has no exit of its own, so the function is partial:
  \<open>None\<close> is the loop that never returns.
\<close>

partial_function (option) poissonLoop :: "RollbackWorkload \<Rightarrow> real \<Rightarrow> real \<Rightarrow> world \<Rightarrow> world option" where
  "poissonLoop self delay lastTime w =
     poissonLoop self delay (fst (poisson lastTime delay w))
       (simulateFailure self (snd (poisson lastTime delay w)))"

text \<open>One turn of that loop, on the anchor and the world, and \<open>n\<close> turns.\<close>

definition turn :: "RollbackWorkload \<Rightarrow> real \<Rightarrow> real \<times> world \<Rightarrow> real \<times> world" where
  "turn self delay s =
     (fst (poisson (fst s) delay (snd s)), simulateFailure self (snd (poisson (fst s) delay (snd s))))"

primrec turns :: "nat \<Rightarrow> RollbackWorkload \<Rightarrow> real \<Rightarrow> real \<times> world \<Rightarrow> real \<times> world" where
  "turns 0 self delay s = s"
| "turns (Suc n) self delay s = turn self delay (turns n self delay s)"

definition rollbackFailureWorker :: "RollbackWorkload \<Rightarrow> real \<Rightarrow> world \<Rightarrow> world option" where
  "rollbackFailureWorker self delay w =
     (if multiple self then poissonLoop self delay (clock w) w
      else
        (case random01 w of (u, w1) \<Rightarrow>
           Some (simulateFailure self
                   (emit (Delay (u * max 0 (testDuration self - clogDuration self * 13))) w1))))"

text \<open>
  \<^verbatim>\<open>start\<close> either returns \<^verbatim>\<open>Void()\<close> at once, or returns the worker under
  \<^verbatim>\<open>reportErrors\<close> and a timeout: the worker's run when nothing cancels it, the name the
  errors are reported under and the seconds after which the timeout cancels it.
\<close>

datatype started =
    ReturnedVoid world
  | Timeout "world option" string real

definition start :: "RollbackWorkload \<Rightarrow> world \<Rightarrow> started" where
  "start self w =
     (if simulated w \<and> enabled self then
        Timeout (rollbackFailureWorker self (meanDelay self) w) ''RollbackFailureWorkerError''
          (testDuration self)
      else ReturnedVoid w)"

subsection \<open>Runs that are cancelled\<close>

text \<open>
  The timeout cancels the worker while it is suspended, and with it the call of
  \<^verbatim>\<open>simulateFailure\<close> it waits for. A run is cut by the number \<open>k\<close> of suspensions it
  passes: it is cancelled in the next one. Either an actor returns, with the suspensions
  that are left and the world it leaves, or it is cancelled, in the world of that moment.
  A suspension records its event before it is passed or cancelled. The three functions
  follow \<^verbatim>\<open>simulateFailure\<close> (lines 59 to 105), the loop of lines 111 to 114 and
  \<^verbatim>\<open>rollbackFailureWorker\<close> (lines 107 to 121) statement by statement.
\<close>

datatype outcome =
    Returned nat world
  | Cancelled world

definition simulateFailureWithin :: "nat \<Rightarrow> RollbackWorkload \<Rightarrow> world \<Rightarrow> outcome" where
  "simulateFailureWithin k self w =
     (case sample w of
        (Abort, w') \<Rightarrow> Returned k w'
      | (Selected tlogs proxy utIndex uncloggedTLog, w3) \<Rightarrow>
          let w4 = emit (attempting proxy uncloggedTLog) w3;
              w5 = clogOthers (clogDuration self) tlogs proxy utIndex 0 w4;
              w6 = emit (Delay (clogDuration self / 3)) w5
          in (case k of
                0 \<Rightarrow> Cancelled w6
              | Suc k' \<Rightarrow>
                  (case get_dbInfo w6 of (system, w7) \<Rightarrow>
                     Returned k' (escalate self proxy uncloggedTLog w7))))"

function poissonLoopWithin ::
  "nat \<Rightarrow> RollbackWorkload \<Rightarrow> real \<Rightarrow> real \<Rightarrow> world \<Rightarrow> outcome" where
  "poissonLoopWithin k self delay lastTime w =
     (case k of
        0 \<Rightarrow> Cancelled (snd (poisson lastTime delay w))
      | Suc k1 \<Rightarrow>
          (case simulateFailureWithin k1 self (snd (poisson lastTime delay w)) of
             Cancelled w' \<Rightarrow> Cancelled w'
           | Returned k2 w' \<Rightarrow>
               poissonLoopWithin k2 self delay (fst (poisson lastTime delay w)) w'))"
  by pat_completeness auto
termination
proof (relation "measure (\<lambda>(k, self, delay, lastTime, w). k)")
  show "wf (measure (\<lambda>(k, self, delay, lastTime, w). k))" by simp
next
  fix k :: nat and self delay lastTime w k1 k2 w'
  assume "k = Suc k1"
    and "simulateFailureWithin k1 self (snd (poisson lastTime delay w)) = Returned k2 w'"
  then show "((k2, self, delay, fst (poisson lastTime delay w), w'), (k, self, delay, lastTime, w))
              \<in> measure (\<lambda>(k, self, delay, lastTime, w). k)"
    by (auto simp: simulateFailureWithin_def Let_def
        split: prod.splits selection.splits nat.splits)
qed

definition rollbackFailureWorkerWithin ::
  "nat \<Rightarrow> RollbackWorkload \<Rightarrow> real \<Rightarrow> world \<Rightarrow> outcome" where
  "rollbackFailureWorkerWithin k self delay w =
     (if multiple self then poissonLoopWithin k self delay (clock w) w
      else
        (case random01 w of (u, w1) \<Rightarrow>
           let w2 = emit (Delay (u * max 0 (testDuration self - clogDuration self * 13))) w1
           in (case k of
                 0 \<Rightarrow> Cancelled w2
               | Suc k1 \<Rightarrow>
                   (case simulateFailureWithin k1 self w2 of
                      Cancelled w' \<Rightarrow> Cancelled w'
                    | Returned k2 w' \<Rightarrow> Returned k2 w'))))"

declare sharedIPs.simps [simp del] clogOthers.simps [simp del] poissonLoopWithin.simps [simp del]

subsection \<open>Notions the properties are stated with\<close>

text \<open>
  The tLogs both loops of \<^verbatim>\<open>simulateFailure\<close> visit: those at an index other than
  \<open>utIndex\<close>, in the order of the vector. What the first read of the cluster information
  returns, the proxy and the index the two random choices give on it, and the world once
  the selection has read the cluster information and drawn twice.
\<close>

definition otherReplicas :: "NetworkAddress list \<Rightarrow> nat \<Rightarrow> NetworkAddress list" where
  "otherReplicas tlogs utIndex =
     map (\<lambda>t. tlogs ! t) (filter (\<lambda>t. t \<noteq> utIndex) [0..<length tlogs])"

definition snapshot :: "world \<Rightarrow> ServerDBInfo" where
  "snapshot w = fst (get_dbInfo w)"

definition chosenProxy :: "world \<Rightarrow> NetworkAddress" where
  "chosenProxy w = fst (randomChoice (commitProxies (snapshot w)) (snd (get_dbInfo w)))"

definition chosenIndex :: "world \<Rightarrow> nat" where
  "chosenIndex w =
     fst (randomInt 0 (length (allPresentLogs (snapshot w)))
            (snd (randomChoice (commitProxies (snapshot w)) (snd (get_dbInfo w)))))"

definition afterSelection :: "world \<Rightarrow> world" where
  "afterSelection w = w\<lparr>reads := Suc (reads w), draws := Suc (Suc (draws w))\<rparr>"

fun isFault :: "event \<Rightarrow> bool" where
  "isFault (ClogPair a b d) = True"
| "isFault (ClogInterface a d m) = True"
| "isFault (KillProcess p k) = True"
| "isFault e = False"

text \<open>
  The events one call of \<^verbatim>\<open>simulateFailure\<close> adds to the history, the kinds of events,
  and the two groups of simulator calls of a call that does not return early.
\<close>

definition occurrence :: "RollbackWorkload \<Rightarrow> world \<Rightarrow> event list" where
  "occurrence self w = drop (length (history w)) (history (simulateFailure self w))"

fun isClogPair :: "event \<Rightarrow> bool" where
  "isClogPair (ClogPair a b d) = True"
| "isClogPair e = False"

fun isClogInterface :: "event \<Rightarrow> bool" where
  "isClogInterface (ClogInterface a d m) = True"
| "isClogInterface e = False"

fun isKillProcess :: "event \<Rightarrow> bool" where
  "isKillProcess (KillProcess p k) = True"
| "isKillProcess e = False"

definition linkFaults :: "RollbackWorkload \<Rightarrow> NetworkAddress list \<Rightarrow> NetworkAddress \<Rightarrow> nat \<Rightarrow> event list" where
  "linkFaults self tlogs proxy utIndex =
     map (\<lambda>r. ClogPair (ip proxy) (ip r) (clogDuration self)) (otherReplicas tlogs utIndex)"

definition escalation :: "RollbackWorkload \<Rightarrow> NetworkAddress \<Rightarrow> NetworkAddress \<Rightarrow> event list" where
  "escalation self proxy u =
     (if enableFailures self
      then [KillProcess (getProcessByAddress proxy) KillInstantly,
            ClogInterface (ip u) (clogDuration self) ClogAll]
      else [ClogInterface (ip proxy) (clogDuration self) ClogAll,
            ClogInterface (ip u) (clogDuration self) ClogAll])"

text \<open>
  The suspensions one call of \<^verbatim>\<open>simulateFailure\<close> passes when nothing cancels it: none
  when it returns early, one otherwise. The suspensions \<open>n\<close> turns of the loop pass: in
  every turn the wait of \<^verbatim>\<open>poisson\<close> and those of the call.
\<close>

definition passes :: "world \<Rightarrow> nat" where
  "passes w = (case fst (sample w) of Abort \<Rightarrow> 0 | Selected tlogs proxy utIndex u \<Rightarrow> 1)"

primrec budget :: "nat \<Rightarrow> RollbackWorkload \<Rightarrow> real \<Rightarrow> real \<times> world \<Rightarrow> nat" where
  "budget 0 self delay s = 0"
| "budget (Suc n) self delay s =
     budget n self delay s +
     Suc (passes (snd (poisson (fst (turns n self delay s)) delay (snd (turns n self delay s)))))"

text \<open>Small worlds to run the actor on.\<close>

definition host :: "nat \<Rightarrow> NetworkAddress" where
  "host n = \<lparr>ip = n, port = 4500\<rparr>"

definition cluster :: "nat list \<Rightarrow> nat list \<Rightarrow> ServerDBInfo" where
  "cluster ps ts = \<lparr>commitProxies = map host ps, allPresentLogs = map host ts\<rparr>"

definition quiet :: "ServerDBInfo \<Rightarrow> nat \<Rightarrow> world" where
  "quiet sys r =
     \<lparr>dbInfo = (\<lambda>k. sys), reads = 0, randomInts = (\<lambda>k. r), random01s = (\<lambda>k. 1 / 2),
      exponentials = (\<lambda>k. 1), draws = 0, clock = 0, simulated = True, history = []\<rparr>"

definition noOptions :: "int \<Rightarrow> WorkloadContext" where
  "noOptions c = \<lparr>clientId = c, double_options = Map.empty, bool_options = Map.empty\<rparr>"

subsection \<open>The two loops\<close>

lemma sharedIPs_iff:
  "sharedIPs tlogs proxy utIndex t \<longleftrightarrow>
     (\<exists>k. t \<le> k \<and> k < length tlogs \<and> k \<noteq> utIndex \<and> ip (tlogs ! k) = ip proxy)"
proof (induction tlogs proxy utIndex t rule: sharedIPs.induct)
  case (1 tlogs proxy utIndex t)
  show ?case
  proof (cases "t < length tlogs")
    case False
    then show ?thesis by (subst sharedIPs.simps) auto
  next
    case inr: True
    show ?thesis
    proof (cases "t \<noteq> utIndex \<and> ip (tlogs ! t) = ip proxy")
      case True
      with inr show ?thesis by (subst sharedIPs.simps) auto
    next
      case False
      with inr 1 have "sharedIPs tlogs proxy utIndex t = 
          (\<exists>k. Suc t \<le> k \<and> k < length tlogs \<and> k \<noteq> utIndex \<and> ip (tlogs ! k) = ip proxy)"
        by (subst sharedIPs.simps) auto
      also have "\<dots> = (\<exists>k. t \<le> k \<and> k < length tlogs \<and> k \<noteq> utIndex \<and> ip (tlogs ! k) = ip proxy)"
        using False by (metis Suc_leD Suc_leI le_neq_implies_less)
      finally show ?thesis .
    qed
  qed
qed

lemma sharedIPs_others:
  "sharedIPs tlogs proxy utIndex 0 \<longleftrightarrow> (\<exists>r \<in> set (otherReplicas tlogs utIndex). ip r = ip proxy)"
  by (auto simp: sharedIPs_iff otherReplicas_def)

lemma clogOthers_from:
  "clogOthers d tlogs proxy utIndex t w =
     w\<lparr>history := history w @
         map (\<lambda>k. ClogPair (ip proxy) (ip (tlogs ! k)) d)
           (filter (\<lambda>k. k \<noteq> utIndex) [t..<length tlogs])\<rparr>"
proof (induction d tlogs proxy utIndex t w rule: clogOthers.induct)
  case (1 d tlogs proxy utIndex t w)
  show ?case
  proof (cases "t < length tlogs")
    case False
    then show ?thesis by (subst clogOthers.simps) simp
  next
    case True
    then have up: "[t..<length tlogs] = t # [Suc t..<length tlogs]"
      by (simp add: upt_conv_Cons)
    from True 1 show ?thesis
      by (subst clogOthers.simps) (simp add: up emit_def)
  qed
qed

lemma clogOthers_others:
  "clogOthers d tlogs proxy utIndex 0 w =
     w\<lparr>history := history w @
         map (\<lambda>r. ClogPair (ip proxy) (ip r) d) (otherReplicas tlogs utIndex)\<rparr>"
  by (simp add: clogOthers_from otherReplicas_def comp_def)

lemma otherReplicas_take_drop:
  assumes "i < length xs"
  shows "otherReplicas xs i = take i xs @ drop (Suc i) xs"
proof -
  have split: "[0..<length xs] = [0..<i] @ i # [Suc i..<length xs]"
    using assms by (metis le0 upt_add_eq_append upt_conv_Cons 
        add.commute le_add_diff_inverse less_imp_le_nat)
  have a: "filter (\<lambda>t. t \<noteq> i) [0..<i] = [0..<i]" by (rule filter_True) auto
  have b: "filter (\<lambda>t. t \<noteq> i) [Suc i..<length xs] = [Suc i..<length xs]"
    by (rule filter_True) auto
  have "otherReplicas xs i = map ((!) xs) [0..<i] @ map ((!) xs) [Suc i..<length xs]"
    unfolding otherReplicas_def by (subst split) (simp add: a b)
  moreover have "map ((!) xs) [0..<i] = take i xs"
  proof -
    have "take i xs = take i (map ((!) xs) [0..<length xs])" by (simp add: map_nth)
    also have "\<dots> = map ((!) xs) [0..<i]" using assms by (simp add: take_map)
    finally show ?thesis by simp
  qed
  moreover have "map ((!) xs) [Suc i..<length xs] = drop (Suc i) xs"
  proof -
    have "drop (Suc i) xs = drop (Suc i) (map ((!) xs) [0..<length xs])" by (simp add: map_nth)
    also have "\<dots> = map ((!) xs) [Suc i..<length xs]" by (simp add: drop_map)
    finally show ?thesis by simp
  qed
  ultimately show ?thesis by simp
qed

lemma sample_empty:
  assumes "allPresentLogs (snapshot w) = [] \<or> commitProxies (snapshot w) = []"
  shows "sample w = (Abort, emit (unable ''No tlogs in System Map'') (w\<lparr>reads := Suc (reads w)\<rparr>))"
  using assms by (simp add: sample_def snapshot_def get_dbInfo_def)

lemma sample_nonempty:
  assumes "allPresentLogs (snapshot w) \<noteq> []" and "commitProxies (snapshot w) \<noteq> []"
  shows "sample w =
     (if sharedIPs (allPresentLogs (snapshot w)) (chosenProxy w) (chosenIndex w) 0
      then (Abort, emit (unable ''proxy-clogged tLog shared IPs'') (afterSelection w))
      else (Selected (allPresentLogs (snapshot w)) (chosenProxy w) (chosenIndex w)
              (allPresentLogs (snapshot w) ! chosenIndex w), afterSelection w))"
  using assms
  by (simp add: sample_def snapshot_def get_dbInfo_def chosenProxy_def chosenIndex_def
      randomChoice_def randomInt_def afterSelection_def Let_def)

lemma chosenProxy_eq:
  "chosenProxy w = commitProxies (snapshot w) ! (randomInts w (draws w) mod length (commitProxies (snapshot w)))"
  by (simp add: chosenProxy_def randomChoice_def randomInt_def get_dbInfo_def snapshot_def)

lemma chosenIndex_eq:
  "chosenIndex w = randomInts w (Suc (draws w)) mod length (allPresentLogs (snapshot w))"
  by (simp add: chosenIndex_def randomChoice_def randomInt_def get_dbInfo_def snapshot_def)

lemma trigger_eq:
  "trigger self tlogs proxy utIndex u w =
     w\<lparr>reads := Suc (reads w),
       history := history w @ attempting proxy u #
         map (\<lambda>r. ClogPair (ip proxy) (ip r) (clogDuration self)) (otherReplicas tlogs utIndex) @
         Delay (clogDuration self / 3) #
         (if enableFailures self
          then [KillProcess (getProcessByAddress proxy) KillInstantly,
                ClogInterface (ip u) (clogDuration self) ClogAll]
          else [ClogInterface (ip proxy) (clogDuration self) ClogAll,
                ClogInterface (ip u) (clogDuration self) ClogAll])\<rparr>"
  by (simp add: trigger_def clogOthers_others emit_def get_dbInfo_def escalate_def Let_def)

subsection \<open>One call of simulateFailure\<close>

lemma sample_Selected:
  assumes "fst (sample w) = Selected tlogs p i u"
  shows "tlogs = allPresentLogs (snapshot w)" and "tlogs \<noteq> []" and "commitProxies (snapshot w) \<noteq> []"
    and "p = chosenProxy w" and "i = chosenIndex w" and "u = tlogs ! i"
    and "\<not> sharedIPs tlogs p i 0" and "sample w = (Selected tlogs p i u, afterSelection w)"
proof -
  have ne: "allPresentLogs (snapshot w) \<noteq> [] \<and> commitProxies (snapshot w) \<noteq> []"
    using assms by (cases "allPresentLogs (snapshot w) = [] \<or> commitProxies (snapshot w) = []")
      (simp_all add: sample_empty)
  then have s: "sample w =
     (if sharedIPs (allPresentLogs (snapshot w)) (chosenProxy w) (chosenIndex w) 0
      then (Abort, emit (unable ''proxy-clogged tLog shared IPs'') (afterSelection w))
      else (Selected (allPresentLogs (snapshot w)) (chosenProxy w) (chosenIndex w)
              (allPresentLogs (snapshot w) ! chosenIndex w), afterSelection w))"
    by (simp add: sample_nonempty)
  from s assms have n: "\<not> sharedIPs (allPresentLogs (snapshot w)) (chosenProxy w) (chosenIndex w) 0"
    by (auto split: if_splits)
  from s n assms show "tlogs = allPresentLogs (snapshot w)" by simp
  with ne show "tlogs \<noteq> []" by simp
  from ne show "commitProxies (snapshot w) \<noteq> []" by simp
  from s n assms show "p = chosenProxy w" by simp
  from s n assms show "i = chosenIndex w" by simp
  from s n assms show "u = tlogs ! i" by auto
  from s n assms show "\<not> sharedIPs tlogs p i 0" by auto
  from s n assms show "sample w = (Selected tlogs p i u, afterSelection w)" by auto
qed

lemma chosenIndex_less:
  "allPresentLogs (snapshot w) \<noteq> [] \<Longrightarrow> chosenIndex w < length (allPresentLogs (snapshot w))"
  by (simp add: chosenIndex_eq)

lemma chosenProxy_in:
  "commitProxies (snapshot w) \<noteq> [] \<Longrightarrow> chosenProxy w \<in> set (commitProxies (snapshot w))"
  by (simp add: chosenProxy_eq)

lemma occurrence_Selected:
  assumes "fst (sample w) = Selected tlogs p i u"
  shows "occurrence self w =
     attempting p u # linkFaults self tlogs p i @ Delay (clogDuration self / 3) # escalation self p u"
  using sample_Selected(8)[OF assms]
  by (simp add: occurrence_def simulateFailure_def trigger_eq afterSelection_def
      linkFaults_def escalation_def)

lemma sample_cases:
  "sample w = (Abort, emit (unable ''No tlogs in System Map'') (w\<lparr>reads := Suc (reads w)\<rparr>)) \<or>
   sample w = (Abort, emit (unable ''proxy-clogged tLog shared IPs'') (afterSelection w)) \<or>
   (\<exists>tlogs p i u. sample w = (Selected tlogs p i u, afterSelection w))"
  by (cases "allPresentLogs (snapshot w) = [] \<or> commitProxies (snapshot w) = []")
    (auto simp: sample_empty sample_nonempty)

lemma history_simulateFailure:
  "history (simulateFailure self w) = history w @ occurrence self w"
proof -
  consider (a) "sample w = (Abort, emit (unable ''No tlogs in System Map'') (w\<lparr>reads := Suc (reads w)\<rparr>))"
    | (b) "sample w = (Abort, emit (unable ''proxy-clogged tLog shared IPs'') (afterSelection w))"
    | (c) tlogs p i u where "sample w = (Selected tlogs p i u, afterSelection w)"
    using sample_cases by blast
  then show ?thesis
  proof cases
    case a then show ?thesis by (simp add: occurrence_def simulateFailure_def emit_def)
  next
    case b then show ?thesis
      by (simp add: occurrence_def simulateFailure_def emit_def afterSelection_def)
  next
    case c then show ?thesis
      by (simp add: occurrence_def simulateFailure_def trigger_eq afterSelection_def)
  qed
qed

lemma isClogPair_linkFaults: "filter isClogPair (linkFaults self tlogs p i) = linkFaults self tlogs p i"
  by (rule filter_True) (auto simp: linkFaults_def)

lemma notDelay_linkFaults: "\<forall>e \<in> set (linkFaults self tlogs p i). e \<noteq> Delay x"
  by (auto simp: linkFaults_def)

lemma length_otherReplicas: "i < length xs \<Longrightarrow> length (otherReplicas xs i) = length xs - 1"
  by (simp add: otherReplicas_take_drop)

lemma mset_otherReplicas:
  "i < length xs \<Longrightarrow> mset xs = add_mset (xs ! i) (mset (otherReplicas xs i))"
proof -
  assume i: "i < length xs"
  then have "xs = take i xs @ xs ! i # drop (Suc i) xs" by (simp add: id_take_nth_drop)
  then have "mset xs = mset (take i xs @ xs ! i # drop (Suc i) xs)" by simp
  then show ?thesis using i by (simp add: otherReplicas_take_drop)
qed

lemma quiet_simps:
  "snapshot (quiet sys r) = sys"
  "reads (quiet sys r) = 0" "draws (quiet sys r) = 0" "history (quiet sys r) = []"
  "randomInts (quiet sys r) k = r"
  by (simp_all add: quiet_def snapshot_def get_dbInfo_def)

lemma quiet_chosenIndex: "chosenIndex (quiet sys r) = r mod length (allPresentLogs sys)"
  by (simp add: chosenIndex_eq quiet_simps)

lemma quiet_chosenProxy:
  "chosenProxy (quiet sys r) = commitProxies sys ! (r mod length (commitProxies sys))"
  by (simp add: chosenProxy_eq quiet_simps)

lemma occurrence_before_delay:
  assumes "fst (sample w) = Selected tlogs p i u"
  shows "takeWhile (\<lambda>e. e \<noteq> Delay (clogDuration self / 3)) (occurrence self w) =
           attempting p u # linkFaults self tlogs p i"
proof -
  have "takeWhile (\<lambda>e. e \<noteq> Delay (clogDuration self / 3))
          (linkFaults self tlogs p i @ Delay (clogDuration self / 3) # escalation self p u) =
        linkFaults self tlogs p i"
    by (rule takeWhile_append2[THEN trans]) (auto simp: linkFaults_def)
  then show ?thesis
    by (simp add: occurrence_Selected[OF assms] attempting_def)
qed

lemma occurrence_after_delay:
  assumes "fst (sample w) = Selected tlogs p i u"
  shows "dropWhile (\<lambda>e. e \<noteq> Delay (clogDuration self / 3)) (occurrence self w) =
           Delay (clogDuration self / 3) # escalation self p u"
proof -
  have "dropWhile (\<lambda>e. e \<noteq> Delay (clogDuration self / 3))
          (linkFaults self tlogs p i @ Delay (clogDuration self / 3) # escalation self p u) =
        Delay (clogDuration self / 3) # escalation self p u"
    by (rule dropWhile_append2[THEN trans]) (auto simp: linkFaults_def)
  then show ?thesis
    by (simp add: occurrence_Selected[OF assms] attempting_def)
qed

lemma filter_linkFaults:
  "filter isKillProcess (linkFaults self tlogs p i) = []"
  "filter isClogInterface (linkFaults self tlogs p i) = []"
  by (auto simp: linkFaults_def filter_empty_conv)

lemma filter_escalation:
  "filter isClogPair (escalation self p u) = []"
  "length (filter isKillProcess (escalation self p u)) = (if enableFailures self then 1 else 0)"
  "length (filter isClogInterface (escalation self p u)) = (if enableFailures self then 1 else 2)"
  by (simp_all add: escalation_def)

lemma sample_quiet_Selected:
  "fst (sample (quiet (cluster [1] [2, 3, 4]) 1)) =
     Selected [host 2, host 3, host 4] (host 1) 1 (host 3)"
  by (simp add: sample_nonempty quiet_simps quiet_chosenIndex quiet_chosenProxy cluster_def
      sharedIPs.simps host_def)

lemma occurrence_unable:
  assumes "sample w = (Abort, emit e w')" and "history w' = history w"
  shows "simulateFailure self w = emit e w'" and "occurrence self w = [e]"
  using assms by (simp_all add: simulateFailure_def occurrence_def emit_def)

lemma poissonLoop_not_Some:
  assumes "poissonLoop self delay lastTime w = Some y"
  shows False
proof (rule poissonLoop.raw_induct[where P = "\<lambda>self delay lastTime w y. False", OF _ assms])
  fix loop :: "RollbackWorkload \<Rightarrow> real \<Rightarrow> real \<Rightarrow> world \<Rightarrow> world option"
    and self delay lastTime w y
  assume hyp: "\<And>self delay lastTime w y. loop self delay lastTime w = Some y \<Longrightarrow> False"
    and step: "loop self delay (fst (poisson lastTime delay w))
                 (simulateFailure self (snd (poisson lastTime delay w))) = Some y"
  from step show False by (rule hyp)
qed

lemma poissonLoop_None: "poissonLoop self delay lastTime w = None"
  using poissonLoop_not_Some by (cases "poissonLoop self delay lastTime w") auto

lemma turn_history:
  "history (snd (turn self delay s)) =
     history (snd s) @
       DelayUntil (fst s + delay * exponentials (snd s) (draws (snd s))) #
       occurrence self (snd (poisson (fst s) delay (snd s)))"
  by (simp add: turn_def history_simulateFailure poisson_def emit_def Let_def)

lemma random01_range: "0 \<le> fst (random01 w) \<and> fst (random01 w) < 1"
  by (simp add: random01_def frac_lt_1)

subsection \<open>Cancelled runs of the loop\<close>

lemma simulateFailureWithin_passes:
  "simulateFailureWithin (passes w + k) self w = Returned k (simulateFailure self w)"
proof (cases "sample w")
  case (Pair sel w')
  then show ?thesis
    by (cases sel)
      (simp_all add: simulateFailureWithin_def simulateFailure_def passes_def trigger_def Let_def
        get_dbInfo_def)
qed

lemma simulateFailureWithin_suspended:
  assumes "fst (sample w) = Selected tlogs p i u"
  shows "simulateFailureWithin 0 self w =
           Cancelled ((afterSelection w)
             \<lparr>history := history w @ attempting p u # linkFaults self tlogs p i @
                            [Delay (clogDuration self / 3)]\<rparr>)"
  using sample_Selected(8)[OF assms]
  by (simp add: simulateFailureWithin_def clogOthers_others emit_def linkFaults_def
      afterSelection_def)

lemma poissonLoopWithin_0:
  "poissonLoopWithin 0 self delay lastTime w = Cancelled (snd (poisson lastTime delay w))"
  by (subst poissonLoopWithin.simps) simp

lemma poissonLoopWithin_turn:
  "poissonLoopWithin (Suc (passes (snd (poisson lastTime delay w)) + k)) self delay lastTime w =
     poissonLoopWithin k self delay (fst (turn self delay (lastTime, w)))
       (snd (turn self delay (lastTime, w)))"
  by (subst poissonLoopWithin.simps) (simp add: simulateFailureWithin_passes turn_def)

lemma poissonLoopWithin_turns:
  "poissonLoopWithin (budget n self delay s + k) self delay (fst s) (snd s) =
     poissonLoopWithin k self delay (fst (turns n self delay s)) (snd (turns n self delay s))"
proof (induction n arbitrary: k)
  case 0
  show ?case by simp
next
  case (Suc n)
  let ?s = "turns n self delay s"
  let ?p = "passes (snd (poisson (fst ?s) delay (snd ?s)))"
  have "poissonLoopWithin (budget (Suc n) self delay s + k) self delay (fst s) (snd s) =
        poissonLoopWithin (budget n self delay s + Suc (?p + k)) self delay (fst s) (snd s)"
    by (simp add: add.assoc)
  also have "\<dots> = poissonLoopWithin (Suc (?p + k)) self delay (fst ?s) (snd ?s)"
    by (rule Suc.IH)
  also have "\<dots> = poissonLoopWithin k self delay (fst (turn self delay ?s)) (snd (turn self delay ?s))"
    using poissonLoopWithin_turn[of "fst ?s" delay "snd ?s" k self] by simp
  finally show ?case by simp
qed

lemma poissonLoopWithin_Cancelled:
  "\<exists>w'. poissonLoopWithin k self delay lastTime w = Cancelled w'"
proof (induction k self delay lastTime w rule: poissonLoopWithin.induct)
  case (1 k self delay lastTime w)
  show ?case
  proof (cases k)
    case 0
    then show ?thesis by (simp add: poissonLoopWithin_0)
  next
    case (Suc k1)
    show ?thesis
    proof (cases "simulateFailureWithin k1 self (snd (poisson lastTime delay w))")
      case (Cancelled w')
      with Suc show ?thesis by (subst poissonLoopWithin.simps) simp
    next
      case (Returned k2 w')
      from "1.IH"[OF Suc Returned] obtain w'' where
        "poissonLoopWithin k2 self delay (fst (poisson lastTime delay w)) w' = Cancelled w''" ..
      with Suc Returned show ?thesis by (subst poissonLoopWithin.simps) simp
    qed
  qed
qed

lemma single_shot_returns:
  assumes "\<not> multiple self"
  shows "\<exists>k'. rollbackFailureWorkerWithin (Suc (Suc k)) self delay w =
           Returned k' (the (rollbackFailureWorker self delay w))"
proof -
  obtain u w1 where r: "random01 w = (u, w1)" by (cases "random01 w")
  let ?w2 = "emit (Delay (u * max 0 (testDuration self - clogDuration self * 13))) w1"
  define j where "j = Suc k - passes ?w2"
  have "passes ?w2 \<le> 1" by (simp add: passes_def split: selection.splits)
  then have j: "Suc k = passes ?w2 + j" by (simp add: j_def)
  have "simulateFailureWithin (Suc k) self ?w2 = Returned j (simulateFailure self ?w2)"
    unfolding j by (rule simulateFailureWithin_passes)
  then show ?thesis
    using assms r by (simp add: rollbackFailureWorkerWithin_def rollbackFailureWorker_def)
qed

lemma turns_front:
  "turns n self delay (turn self delay s) = turns (Suc n) self delay s"
  by (induction n) simp_all

lemma simulateFailureWithin_Returned:
  "simulateFailureWithin k self w = Returned k' w' \<Longrightarrow> w' = simulateFailure self w"
  by (auto simp: simulateFailureWithin_def simulateFailure_def trigger_def Let_def get_dbInfo_def
      split: prod.splits selection.splits nat.splits)

lemma simulateFailureWithin_Cancelled:
  "simulateFailureWithin k self w = Cancelled w' \<Longrightarrow> k = 0"
  by (auto simp: simulateFailureWithin_def Let_def
      split: prod.splits selection.splits nat.splits)

lemma poissonLoopWithin_cut:
  "\<exists>n. poissonLoopWithin k self delay lastTime w =
          Cancelled (snd (poisson (fst (turns n self delay (lastTime, w))) delay
                            (snd (turns n self delay (lastTime, w)))))
       \<or> poissonLoopWithin k self delay lastTime w =
          simulateFailureWithin 0 self
            (snd (poisson (fst (turns n self delay (lastTime, w))) delay
                    (snd (turns n self delay (lastTime, w)))))"
proof (induction k self delay lastTime w rule: poissonLoopWithin.induct)
  case (1 k self delay lastTime w)
  show ?case
  proof (cases k)
    case 0
    then have "poissonLoopWithin k self delay lastTime w =
          Cancelled (snd (poisson (fst (turns 0 self delay (lastTime, w))) delay
                            (snd (turns 0 self delay (lastTime, w)))))"
      by (simp add: poissonLoopWithin_0)
    then show ?thesis by blast
  next
    case (Suc k1)
    show ?thesis
    proof (cases "simulateFailureWithin k1 self (snd (poisson lastTime delay w))")
      case (Cancelled w')
      then have "k1 = 0" by (rule simulateFailureWithin_Cancelled)
      with Suc Cancelled have "poissonLoopWithin k self delay lastTime w =
          simulateFailureWithin 0 self
            (snd (poisson (fst (turns 0 self delay (lastTime, w))) delay
                    (snd (turns 0 self delay (lastTime, w)))))"
        by (subst poissonLoopWithin.simps) simp
      then show ?thesis by blast
    next
      case (Returned k2 w')
      then have w': "w' = simulateFailure self (snd (poisson lastTime delay w))"
        by (rule simulateFailureWithin_Returned)
      have t: "(fst (poisson lastTime delay w), w') = turn self delay (lastTime, w)"
        by (simp add: turn_def w')
      have step: "poissonLoopWithin k self delay lastTime w =
            poissonLoopWithin k2 self delay (fst (poisson lastTime delay w)) w'"
        using Suc Returned by (subst poissonLoopWithin.simps) simp
      from "1.IH"[OF Suc Returned] obtain n where
        "poissonLoopWithin k2 self delay (fst (poisson lastTime delay w)) w' =
          Cancelled (snd (poisson (fst (turns n self delay (fst (poisson lastTime delay w), w'))) delay
                            (snd (turns n self delay (fst (poisson lastTime delay w), w')))))
         \<or> poissonLoopWithin k2 self delay (fst (poisson lastTime delay w)) w' =
          simulateFailureWithin 0 self
            (snd (poisson (fst (turns n self delay (fst (poisson lastTime delay w), w'))) delay
                    (snd (turns n self delay (fst (poisson lastTime delay w), w')))))" ..
      then have "poissonLoopWithin k self delay lastTime w =
          Cancelled (snd (poisson (fst (turns (Suc n) self delay (lastTime, w))) delay
                            (snd (turns (Suc n) self delay (lastTime, w)))))
         \<or> poissonLoopWithin k self delay lastTime w =
          simulateFailureWithin 0 self
            (snd (poisson (fst (turns (Suc n) self delay (lastTime, w))) delay
                    (snd (turns (Suc n) self delay (lastTime, w)))))"
        unfolding step t turns_front .
      then show ?thesis by blast
    qed
  qed
qed

lemma sample_constant:
  assumes "dbInfo w = (\<lambda>k. cluster [1] [2, 3, 4])" and "randomInts w = (\<lambda>k. 1)"
  shows "fst (sample w) = Selected [host 2, host 3, host 4] (host 1) 1 (host 3)"
  by (simp add: sample_nonempty snapshot_def get_dbInfo_def chosenIndex_eq chosenProxy_eq
      assms cluster_def sharedIPs.simps host_def)

subsection \<open>Properties\<close>

text \<open>
  C1. On a cluster with at least one commit proxy and at least two tLogs where no tLog
  other than the chosen one has the IP of the chosen proxy, the selection does not return
  early: it goes on with a proxy of the list and with the tLog at an index within the
  vector, which is one of the tLogs. The other tLogs are the vector with that one position
  removed: one entry fewer, not empty, none of them with the proxy's IP, and together with
  the chosen tLog they are the tLogs of the cluster. Where the addresses of the tLogs are
  distinct, the address of the chosen tLog is not among the others.
\<close>

theorem sample_valid_plan:
  assumes "commitProxies (snapshot w) \<noteq> []"
    and "2 \<le> length (allPresentLogs (snapshot w))"
    and "\<forall>t < length (allPresentLogs (snapshot w)).
           t \<noteq> chosenIndex w \<longrightarrow> ip (allPresentLogs (snapshot w) ! t) \<noteq> ip (chosenProxy w)"
  shows "sample w =
           (Selected (allPresentLogs (snapshot w)) (chosenProxy w) (chosenIndex w)
              (allPresentLogs (snapshot w) ! chosenIndex w), afterSelection w)
         \<and> chosenProxy w \<in> set (commitProxies (snapshot w))
         \<and> chosenIndex w < length (allPresentLogs (snapshot w))
         \<and> allPresentLogs (snapshot w) ! chosenIndex w \<in> set (allPresentLogs (snapshot w))
         \<and> (\<forall>r \<in> set (otherReplicas (allPresentLogs (snapshot w)) (chosenIndex w)).
               ip r \<noteq> ip (chosenProxy w))
         \<and> (distinct (allPresentLogs (snapshot w)) \<longrightarrow>
               allPresentLogs (snapshot w) ! chosenIndex w \<notin>
                 set (otherReplicas (allPresentLogs (snapshot w)) (chosenIndex w)))
         \<and> otherReplicas (allPresentLogs (snapshot w)) (chosenIndex w) =
             take (chosenIndex w) (allPresentLogs (snapshot w)) @
             drop (Suc (chosenIndex w)) (allPresentLogs (snapshot w))
         \<and> mset (allPresentLogs (snapshot w)) =
             add_mset (allPresentLogs (snapshot w) ! chosenIndex w)
               (mset (otherReplicas (allPresentLogs (snapshot w)) (chosenIndex w)))
         \<and> length (otherReplicas (allPresentLogs (snapshot w)) (chosenIndex w)) =
             length (allPresentLogs (snapshot w)) - 1
         \<and> otherReplicas (allPresentLogs (snapshot w)) (chosenIndex w) \<noteq> []"
proof -
  let ?tlogs = "allPresentLogs (snapshot w)"
  from assms(2) have ne: "?tlogs \<noteq> []" by auto
  have i: "chosenIndex w < length ?tlogs" using ne by (rule chosenIndex_less)
  have ns: "\<not> sharedIPs ?tlogs (chosenProxy w) (chosenIndex w) 0"
    using assms(3) by (auto simp: sharedIPs_iff)
  then have 5: "\<forall>r \<in> set (otherReplicas ?tlogs (chosenIndex w)). ip r \<noteq> ip (chosenProxy w)"
    by (auto simp: sharedIPs_others)
  have 6: "?tlogs ! chosenIndex w \<in> set ?tlogs" using i by simp
  have 7: "distinct ?tlogs \<longrightarrow> ?tlogs ! chosenIndex w \<notin> set (otherReplicas ?tlogs (chosenIndex w))"
    using i by (auto simp: otherReplicas_def nth_eq_iff_index_eq)
  from ns have 1: "sample w = (Selected ?tlogs (chosenProxy w) (chosenIndex w) (?tlogs ! chosenIndex w),
      afterSelection w)"
    using ne assms(1) by (simp add: sample_nonempty)
  have 2: "chosenProxy w \<in> set (commitProxies (snapshot w))"
    using assms(1) by (rule chosenProxy_in)
  have 3: "length (otherReplicas ?tlogs (chosenIndex w)) = length ?tlogs - 1"
    using i by (rule length_otherReplicas)
  with assms(2) have 4: "otherReplicas ?tlogs (chosenIndex w) \<noteq> []" by auto
  from 1 2 i 3 4 5 6 7 otherReplicas_take_drop[OF i] mset_otherReplicas[OF i] show ?thesis
    by blast
qed

theorem sample_valid_plan_witness:
  "sample (quiet (cluster [1] [2, 3, 4]) 1) =
     (Selected [host 2, host 3, host 4] (host 1) 1 (host 3), afterSelection (quiet (cluster [1] [2, 3, 4]) 1))
   \<and> otherReplicas [host 2, host 3, host 4] 1 = [host 2, host 4]
   \<and> host 3 \<notin> set (otherReplicas [host 2, host 3, host 4] 1)"
proof -
  let ?w = "quiet (cluster [1] [2, 3, 4]) 1"
  have a: "commitProxies (snapshot ?w) \<noteq> []" by (simp add: quiet_simps cluster_def)
  have b: "2 \<le> length (allPresentLogs (snapshot ?w))" by (simp add: quiet_simps cluster_def)
  have c: "\<forall>t < length (allPresentLogs (snapshot ?w)).
           t \<noteq> chosenIndex ?w \<longrightarrow> ip (allPresentLogs (snapshot ?w) ! t) \<noteq> ip (chosenProxy ?w)"
    by (simp add: quiet_simps cluster_def chosenIndex_eq chosenProxy_eq host_def less_Suc_eq)
  have d: "distinct (allPresentLogs (snapshot ?w))"
    by (simp add: quiet_simps cluster_def host_def)
  show ?thesis using sample_valid_plan[OF a b c] d
    by (simp add: quiet_simps cluster_def chosenIndex_eq chosenProxy_eq host_def)
qed

text \<open>
  C2. On a cluster with tLogs and commit proxies, when some tLog other than the chosen one
  has the IP of the chosen proxy, the call returns early. Its only event is the
  informational trace event \<^verbatim>\<open>UnableToTriggerRollback\<close> with the reason
  \<^verbatim>\<open>proxy-clogged tLog shared IPs\<close> (the shared host of the spec); no call on the
  simulator is made, and besides the trace event the world has only moved past one read of
  the cluster information and two random draws. When it is the chosen tLog that has the
  proxy's IP and no other tLog has it, the call does not return early: the selection
  goes on and the simulator is called.
\<close>

theorem shared_host_abort:
  assumes "allPresentLogs (snapshot w) \<noteq> []" and "commitProxies (snapshot w) \<noteq> []"
  shows "((\<exists>t < length (allPresentLogs (snapshot w)).
             t \<noteq> chosenIndex w \<and> ip (allPresentLogs (snapshot w) ! t) = ip (chosenProxy w)) \<longrightarrow>
           fst (sample w) = Abort
           \<and> simulateFailure self w =
               w\<lparr>reads := Suc (reads w), draws := Suc (Suc (draws w)),
                 history := history w @
                   [TraceEvent (Some SevInfo) ''UnableToTriggerRollback''
                      [(''Reason'', Text ''proxy-clogged tLog shared IPs'')]]\<rparr>
           \<and> filter isFault (occurrence self w) = [])
         \<and> (ip (allPresentLogs (snapshot w) ! chosenIndex w) = ip (chosenProxy w)
            \<and> (\<forall>t < length (allPresentLogs (snapshot w)).
                  t \<noteq> chosenIndex w \<longrightarrow>
                  ip (allPresentLogs (snapshot w) ! t) \<noteq> ip (chosenProxy w)) \<longrightarrow>
            fst (sample w) =
              Selected (allPresentLogs (snapshot w)) (chosenProxy w) (chosenIndex w)
                (allPresentLogs (snapshot w) ! chosenIndex w)
            \<and> filter isFault (occurrence self w) \<noteq> [])"
proof (intro conjI impI)
  let ?tlogs = "allPresentLogs (snapshot w)"
  assume "\<exists>t < length ?tlogs. t \<noteq> chosenIndex w \<and> ip (?tlogs ! t) = ip (chosenProxy w)"
  then have "sharedIPs ?tlogs (chosenProxy w) (chosenIndex w) 0"
    by (auto simp: sharedIPs_iff)
  then have s: "sample w =
      (Abort, emit (unable ''proxy-clogged tLog shared IPs'') (afterSelection w))"
    using assms by (simp add: sample_nonempty)
  have h: "history (afterSelection w) = history w" by (simp add: afterSelection_def)
  from s show "fst (sample w) = Abort" by simp
  from occurrence_unable(1)[OF s h, of self]
  show "simulateFailure self w =
          w\<lparr>reads := Suc (reads w), draws := Suc (Suc (draws w)),
            history := history w @
              [TraceEvent (Some SevInfo) ''UnableToTriggerRollback''
                 [(''Reason'', Text ''proxy-clogged tLog shared IPs'')]]\<rparr>"
    by (simp add: unable_def emit_def afterSelection_def)
  from occurrence_unable(2)[OF s h, of self]
  show "filter isFault (occurrence self w) = []" by (simp add: unable_def)
next
  let ?tlogs = "allPresentLogs (snapshot w)"
  assume a: "ip (?tlogs ! chosenIndex w) = ip (chosenProxy w)
     \<and> (\<forall>t < length ?tlogs. t \<noteq> chosenIndex w \<longrightarrow> ip (?tlogs ! t) \<noteq> ip (chosenProxy w))"
  then have "\<not> sharedIPs ?tlogs (chosenProxy w) (chosenIndex w) 0"
    by (auto simp: sharedIPs_iff)
  then have s: "sample w =
      (Selected ?tlogs (chosenProxy w) (chosenIndex w) (?tlogs ! chosenIndex w), afterSelection w)"
    using assms by (simp add: sample_nonempty)
  then show f: "fst (sample w) =
      Selected ?tlogs (chosenProxy w) (chosenIndex w) (?tlogs ! chosenIndex w)" by simp
  show "filter isFault (occurrence self w) \<noteq> []"
    by (simp add: occurrence_Selected[OF f] escalation_def)
qed

theorem shared_host_abort_witness:
  "occurrence (RollbackWorkload_init (noOptions 0)) (quiet (cluster [2] [2, 3, 2]) 0) =
     [TraceEvent (Some SevInfo) ''UnableToTriggerRollback''
        [(''Reason'', Text ''proxy-clogged tLog shared IPs'')]]
   \<and> fst (sample (quiet (cluster [2] [2, 3, 4]) 0)) =
       Selected [host 2, host 3, host 4] (host 2) 0 (host 2)"
proof -
  let ?a = "quiet (cluster [2] [2, 3, 2]) 0"
  let ?b = "quiet (cluster [2] [2, 3, 4]) 0"
  let ?self = "RollbackWorkload_init (noOptions 0)"
  have a1: "allPresentLogs (snapshot ?a) \<noteq> []" and a2: "commitProxies (snapshot ?a) \<noteq> []"
    by (simp_all add: quiet_simps cluster_def)
  have b1: "allPresentLogs (snapshot ?b) \<noteq> []" and b2: "commitProxies (snapshot ?b) \<noteq> []"
    by (simp_all add: quiet_simps cluster_def)
  have a3: "\<exists>t < length (allPresentLogs (snapshot ?a)).
             t \<noteq> chosenIndex ?a \<and> ip (allPresentLogs (snapshot ?a) ! t) = ip (chosenProxy ?a)"
    by (rule exI[of _ 2]) (simp add: quiet_simps quiet_chosenIndex quiet_chosenProxy cluster_def host_def)
  have b3: "ip (allPresentLogs (snapshot ?b) ! chosenIndex ?b) = ip (chosenProxy ?b)
            \<and> (\<forall>t < length (allPresentLogs (snapshot ?b)).
                  t \<noteq> chosenIndex ?b \<longrightarrow>
                  ip (allPresentLogs (snapshot ?b) ! t) \<noteq> ip (chosenProxy ?b))"
    by (simp add: quiet_simps quiet_chosenIndex quiet_chosenProxy cluster_def host_def less_Suc_eq)
  have a4: "simulateFailure ?self ?a = ?a\<lparr>reads := Suc (reads ?a), draws := Suc (Suc (draws ?a)),
                 history := history ?a @
                   [TraceEvent (Some SevInfo) ''UnableToTriggerRollback''
                      [(''Reason'', Text ''proxy-clogged tLog shared IPs'')]]\<rparr>"
    using shared_host_abort[OF a1 a2, of ?self] a3 by blast
  have b4: "fst (sample ?b) =
              Selected (allPresentLogs (snapshot ?b)) (chosenProxy ?b) (chosenIndex ?b)
                (allPresentLogs (snapshot ?b) ! chosenIndex ?b)"
    using shared_host_abort[OF b1 b2, of ?self] b3 by blast
  from a4 have "occurrence ?self ?a = [TraceEvent (Some SevInfo) ''UnableToTriggerRollback''
        [(''Reason'', Text ''proxy-clogged tLog shared IPs'')]]"
    by (simp add: occurrence_def)
  moreover from b4 have "fst (sample ?b) = Selected [host 2, host 3, host 4] (host 2) 0 (host 2)"
    by (simp add: quiet_simps quiet_chosenIndex quiet_chosenProxy cluster_def)
  ultimately show ?thesis by simp
qed

text \<open>
  C3. In a call that does not return early and is not cancelled while suspended, what
  follows the suspension is decided by \<^verbatim>\<open>enableFailures\<close> (the flag the spec calls
  aggressiveFailures). When it is set: \<^verbatim>\<open>killProcess\<close> of the process at the proxy's
  address with \<^verbatim>\<open>KillInstantly\<close>, then \<^verbatim>\<open>clogInterface\<close> of the unclogged tLog's IP
  for \<^verbatim>\<open>clogDuration\<close>. Otherwise: \<^verbatim>\<open>clogInterface\<close> of the proxy's IP, then of the
  unclogged tLog's IP, each for \<^verbatim>\<open>clogDuration\<close>. The whole call so holds one
  \<^verbatim>\<open>killProcess\<close> and one \<^verbatim>\<open>clogInterface\<close>, or no \<^verbatim>\<open>killProcess\<close> and two
  \<^verbatim>\<open>clogInterface\<close>.
\<close>

theorem escalation_by_flag:
  assumes "fst (sample w) = Selected tlogs p i u"
  shows "dropWhile (\<lambda>e. e \<noteq> Delay (clogDuration self / 3)) (occurrence self w) =
           Delay (clogDuration self / 3) #
           (if enableFailures self
            then [KillProcess (getProcessByAddress p) KillInstantly,
                  ClogInterface (ip u) (clogDuration self) ClogAll]
            else [ClogInterface (ip p) (clogDuration self) ClogAll,
                  ClogInterface (ip u) (clogDuration self) ClogAll])
         \<and> length (filter isKillProcess (occurrence self w)) = (if enableFailures self then 1 else 0)
         \<and> length (filter isClogInterface (occurrence self w)) = (if enableFailures self then 1 else 2)"
proof -
  have a: "dropWhile (\<lambda>e. e \<noteq> Delay (clogDuration self / 3)) (occurrence self w) =
           Delay (clogDuration self / 3) # escalation self p u"
    using assms by (rule occurrence_after_delay)
  have b: "length (filter isKillProcess (occurrence self w)) = (if enableFailures self then 1 else 0)"
    by (simp add: occurrence_Selected[OF assms] filter_linkFaults filter_escalation attempting_def)
  have c: "length (filter isClogInterface (occurrence self w)) = (if enableFailures self then 1 else 2)"
    by (simp add: occurrence_Selected[OF assms] filter_linkFaults filter_escalation attempting_def)
  from a b c show ?thesis by (simp add: escalation_def)
qed

theorem escalation_by_flag_witness:
  "dropWhile (\<lambda>e. e \<noteq> Delay 1)
     (occurrence (RollbackWorkload_init (noOptions 0)) (quiet (cluster [1] [2, 3, 4]) 1)) =
     [Delay 1, ClogInterface 1 3 ClogAll, ClogInterface 3 3 ClogAll]
   \<and> dropWhile (\<lambda>e. e \<noteq> Delay 1)
     (occurrence (RollbackWorkload_init (noOptions 0)\<lparr>enableFailures := True\<rparr>)
        (quiet (cluster [1] [2, 3, 4]) 1)) =
     [Delay 1, KillProcess (ProcessAt (host 1)) KillInstantly, ClogInterface 3 3 ClogAll]"
  using escalation_by_flag[OF sample_quiet_Selected, of "RollbackWorkload_init (noOptions 0)"]
    escalation_by_flag[OF sample_quiet_Selected, of "RollbackWorkload_init (noOptions 0)\<lparr>enableFailures := True\<rparr>"]
  by (simp add: RollbackWorkload_init_def noOptions_def getOption_def host_def getProcessByAddress_def)

text \<open>
  C4. In a call that does not return early, the events before the suspension of
  \<^verbatim>\<open>clogDuration / 3\<close> are the trace event and then one \<^verbatim>\<open>clogPair\<close> of the proxy's IP
  with the IP of each other tLog, for \<^verbatim>\<open>clogDuration\<close>, in the order of the vector: one
  for every position but the chosen one, so one fewer than there are tLogs. These are all
  the \<^verbatim>\<open>clogPair\<close> calls of the call and the only simulator calls before the suspension;
  the suspension is reached, and no \<^verbatim>\<open>clogPair\<close> follows it.
\<close>

theorem link_faults_before_suspension:
  assumes "fst (sample w) = Selected tlogs p i u"
  shows "takeWhile (\<lambda>e. e \<noteq> Delay (clogDuration self / 3)) (occurrence self w) =
           attempting p u #
           map (\<lambda>r. ClogPair (ip p) (ip r) (clogDuration self)) (otherReplicas tlogs i)
         \<and> filter isClogPair (occurrence self w) =
             map (\<lambda>r. ClogPair (ip p) (ip r) (clogDuration self)) (otherReplicas tlogs i)
         \<and> otherReplicas tlogs i = take i tlogs @ drop (Suc i) tlogs
         \<and> length (filter isClogPair (occurrence self w)) = length tlogs - 1
         \<and> Delay (clogDuration self / 3) \<in> set (occurrence self w)
         \<and> filter isFault
             (takeWhile (\<lambda>e. e \<noteq> Delay (clogDuration self / 3)) (occurrence self w)) =
             filter isClogPair (occurrence self w)
         \<and> filter isClogPair
             (dropWhile (\<lambda>e. e \<noteq> Delay (clogDuration self / 3)) (occurrence self w)) = []"
proof -
  let ?lf = "map (\<lambda>r. ClogPair (ip p) (ip r) (clogDuration self)) (otherReplicas tlogs i)"
  have i: "i < length tlogs"
    using sample_Selected(1,2,5)[OF assms] chosenIndex_less by simp
  have a: "takeWhile (\<lambda>e. e \<noteq> Delay (clogDuration self / 3)) (occurrence self w) =
           attempting p u # ?lf"
    using occurrence_before_delay[OF assms] by (simp add: linkFaults_def)
  have b: "filter isClogPair (occurrence self w) = ?lf"
    using isClogPair_linkFaults[of self tlogs p i]
    by (simp add: occurrence_Selected[OF assms] filter_escalation attempting_def linkFaults_def)
  have c: "otherReplicas tlogs i = take i tlogs @ drop (Suc i) tlogs"
    using i by (rule otherReplicas_take_drop)
  have d: "length (filter isClogPair (occurrence self w)) = length tlogs - 1"
    using b length_otherReplicas[OF i] by simp
  have e: "Delay (clogDuration self / 3) \<in> set (occurrence self w)"
    by (simp add: occurrence_Selected[OF assms])
  have "filter isFault ?lf = ?lf" by (rule filter_True) auto
  then have f: "filter isFault
             (takeWhile (\<lambda>e. e \<noteq> Delay (clogDuration self / 3)) (occurrence self w)) =
             filter isClogPair (occurrence self w)"
    by (simp add: a b attempting_def)
  have g: "filter isClogPair
             (dropWhile (\<lambda>e. e \<noteq> Delay (clogDuration self / 3)) (occurrence self w)) = []"
    by (simp add: occurrence_after_delay[OF assms] filter_escalation)
  from a b c d e f g show ?thesis by simp
qed

theorem link_faults_before_suspension_witness:
  "takeWhile (\<lambda>e. e \<noteq> Delay 1)
     (occurrence (RollbackWorkload_init (noOptions 0)) (quiet (cluster [1] [2, 3, 4]) 1)) =
     [attempting (host 1) (host 3), ClogPair 1 2 3, ClogPair 1 4 3]"
  using link_faults_before_suspension[OF sample_quiet_Selected, of "RollbackWorkload_init (noOptions 0)"]
  by (simp add: RollbackWorkload_init_def noOptions_def getOption_def host_def)

text \<open>
  C5. With \<^verbatim>\<open>multiple\<close> unset the worker returns: it draws \<^verbatim>\<open>random01()\<close>, a number
  at least 0 and less than 1, suspends for that number times
  \<open>max 0 (testDuration - clogDuration * 13)\<close> and then calls \<^verbatim>\<open>simulateFailure\<close> once.
  The delay is at least 0 and at most that bound, and less than the bound where the bound
  is positive; when \<^verbatim>\<open>testDuration\<close> is less than 13 times \<^verbatim>\<open>clogDuration\<close> the bound
  is 0 and the delay is 0. The history of the run is the delay and then the events of the
  one call.
\<close>

theorem single_shot_delay:
  assumes "\<not> multiple self"
  shows "rollbackFailureWorker self delay w =
           Some (simulateFailure self
                   (emit (Delay (fst (random01 w) *
                                 max 0 (testDuration self - clogDuration self * 13)))
                      (snd (random01 w))))
         \<and> 0 \<le> fst (random01 w) \<and> fst (random01 w) < 1
         \<and> 0 \<le> fst (random01 w) * max 0 (testDuration self - clogDuration self * 13)
         \<and> fst (random01 w) * max 0 (testDuration self - clogDuration self * 13)
               \<le> max 0 (testDuration self - clogDuration self * 13)
         \<and> (0 < max 0 (testDuration self - clogDuration self * 13) \<longrightarrow>
              fst (random01 w) * max 0 (testDuration self - clogDuration self * 13)
                < max 0 (testDuration self - clogDuration self * 13))
         \<and> (testDuration self < 13 * clogDuration self \<longrightarrow>
              fst (random01 w) * max 0 (testDuration self - clogDuration self * 13) = 0)
         \<and> history (the (rollbackFailureWorker self delay w)) =
             history w @
             Delay (fst (random01 w) * max 0 (testDuration self - clogDuration self * 13)) #
             occurrence self
               (emit (Delay (fst (random01 w) *
                             max 0 (testDuration self - clogDuration self * 13)))
                  (snd (random01 w)))"
proof -
  let ?u = "fst (random01 w)"
  let ?m = "max 0 (testDuration self - clogDuration self * 13)"
  have r: "0 \<le> ?u \<and> ?u < 1" by (rule random01_range)
  have a: "rollbackFailureWorker self delay w =
           Some (simulateFailure self (emit (Delay (?u * ?m)) (snd (random01 w))))"
    using assms by (simp add: rollbackFailureWorker_def split: prod.splits)
  have m0: "0 \<le> ?m" by simp
  have b: "0 \<le> ?u * ?m" using r m0 by (simp del: max.bounded_iff)
  have b': "?u * ?m \<le> ?m"
  proof -
    from r m0 have "?u * ?m \<le> 1 * ?m" by (intro mult_right_mono) auto
    then show ?thesis by simp
  qed
  have c: "0 < ?m \<longrightarrow> ?u * ?m < ?m"
  proof
    assume "0 < ?m"
    with r have "?u * ?m < 1 * ?m" by (intro mult_strict_right_mono) auto
    then show "?u * ?m < ?m" by simp
  qed
  have d: "testDuration self < 13 * clogDuration self \<longrightarrow> ?u * ?m = 0" by auto
  have e: "history (the (rollbackFailureWorker self delay w)) =
             history w @ Delay (?u * ?m) # occurrence self (emit (Delay (?u * ?m)) (snd (random01 w)))"
    by (simp add: a history_simulateFailure) (simp add: emit_def random01_def)
  from a r b b' c d e show ?thesis by blast
qed

theorem single_shot_delay_witness:
  "rollbackFailureWorker (RollbackWorkload_init (noOptions 0)\<lparr>multiple := False\<rparr>) 20
     (quiet (cluster [1] [2, 3, 4]) 1) =
     Some (simulateFailure (RollbackWorkload_init (noOptions 0)\<lparr>multiple := False\<rparr>)
             (emit (Delay 0) (snd (random01 (quiet (cluster [1] [2, 3, 4]) 1)))))
   \<and> rollbackFailureWorker
       (RollbackWorkload_init (noOptions 0)\<lparr>multiple := False, testDuration := 50\<rparr>) 20
       (quiet (cluster [1] [2, 3, 4]) 1) =
     Some (simulateFailure
             (RollbackWorkload_init (noOptions 0)\<lparr>multiple := False, testDuration := 50\<rparr>)
             (emit (Delay (11 / 2)) (snd (random01 (quiet (cluster [1] [2, 3, 4]) 1)))))"
proof -
  let ?a = "RollbackWorkload_init (noOptions 0)\<lparr>multiple := False\<rparr>"
  let ?b = "RollbackWorkload_init (noOptions 0)\<lparr>multiple := False, testDuration := 50\<rparr>"
  let ?w = "quiet (cluster [1] [2, 3, 4]) 1"
  have a: "\<not> multiple ?a" and b: "\<not> multiple ?b" by simp_all
  have u: "fst (random01 ?w) = 1 / 2"
    by (simp add: random01_def quiet_def)
  have ma: "fst (random01 ?w) * max 0 (testDuration ?a - clogDuration ?a * 13) = 0"
    by (simp add: RollbackWorkload_init_def noOptions_def getOption_def)
  have mb: "fst (random01 ?w) * max 0 (testDuration ?b - clogDuration ?b * 13) = 11 / 2"
    unfolding u by (simp add: RollbackWorkload_init_def noOptions_def getOption_def)
  from single_shot_delay[OF a, of 20 ?w, THEN conjunct1, unfolded ma]
    single_shot_delay[OF b, of 20 ?w, THEN conjunct1, unfolded mb]
  show ?thesis by (rule conjI)
qed

text \<open>
  C6. With \<^verbatim>\<open>multiple\<close> set the worker, called with \<^verbatim>\<open>meanDelay\<close> as \<^verbatim>\<open>start\<close> calls
  it, has no exit of its own. The run that nothing cancels never returns, and the run
  that is cancelled after any number of suspensions ends cancelled, not returned. Every
  such run is some whole turns of the loop and then either the wait that \<^verbatim>\<open>poisson\<close> draws
  from the anchor those turns have left, cancelled, or after that wait the next call of
  \<^verbatim>\<open>simulateFailure\<close>, cancelled in its suspension. The run cut after exactly the
  suspensions of \<open>n\<close> turns has done these turns and is cancelled in the wait drawn after
  them; with \<open>k\<close> suspensions more it goes on as the loop from the anchor and the world
  the turns have left. Every turn advances the anchor by an interval of mean
  \<^verbatim>\<open>meanDelay\<close> and adds to the history the wait until the new anchor and then the events of
  one call of \<^verbatim>\<open>simulateFailure\<close>, behind the events of all earlier turns: a call begins
  only after the call before it has returned and the next wait has been drawn.
\<close>

theorem repeating_until_cancelled:
  assumes "multiple self"
  shows "rollbackFailureWorker self (meanDelay self) w = None
         \<and> (\<forall>k. \<exists>w'. rollbackFailureWorkerWithin k self (meanDelay self) w = Cancelled w')
         \<and> (\<forall>n. rollbackFailureWorkerWithin (budget n self (meanDelay self) (clock w, w))
                  self (meanDelay self) w =
                Cancelled
                  (snd (poisson (fst (turns n self (meanDelay self) (clock w, w)))
                          (meanDelay self)
                          (snd (turns n self (meanDelay self) (clock w, w))))))
         \<and> (\<forall>k. \<exists>n.
                rollbackFailureWorkerWithin k self (meanDelay self) w =
                  Cancelled
                    (snd (poisson (fst (turns n self (meanDelay self) (clock w, w)))
                            (meanDelay self)
                            (snd (turns n self (meanDelay self) (clock w, w)))))
              \<or> rollbackFailureWorkerWithin k self (meanDelay self) w =
                  simulateFailureWithin 0 self
                    (snd (poisson (fst (turns n self (meanDelay self) (clock w, w)))
                            (meanDelay self)
                            (snd (turns n self (meanDelay self) (clock w, w))))))
         \<and> (\<forall>n k. rollbackFailureWorkerWithin (budget n self (meanDelay self) (clock w, w) + k)
                    self (meanDelay self) w =
                  poissonLoopWithin k self (meanDelay self)
                    (fst (turns n self (meanDelay self) (clock w, w)))
                    (snd (turns n self (meanDelay self) (clock w, w))))
         \<and> (\<forall>n. fst (turns (Suc n) self (meanDelay self) (clock w, w)) =
                  fst (turns n self (meanDelay self) (clock w, w)) +
                  meanDelay self *
                    exponentials (snd (turns n self (meanDelay self) (clock w, w)))
                      (draws (snd (turns n self (meanDelay self) (clock w, w))))
                \<and> history (snd (turns (Suc n) self (meanDelay self) (clock w, w))) =
                    history (snd (turns n self (meanDelay self) (clock w, w))) @
                    DelayUntil (fst (turns (Suc n) self (meanDelay self) (clock w, w))) #
                    occurrence self
                      (snd (poisson (fst (turns n self (meanDelay self) (clock w, w)))
                              (meanDelay self)
                              (snd (turns n self (meanDelay self) (clock w, w))))))"
proof -
  let ?d = "meanDelay self"
  let ?s = "(clock w, w)"
  have loop: "rollbackFailureWorkerWithin k self ?d w = poissonLoopWithin k self ?d (clock w) w" for k
    using assms by (simp add: rollbackFailureWorkerWithin_def)
  have a: "rollbackFailureWorker self ?d w = None"
    using assms by (simp add: rollbackFailureWorker_def poissonLoop_None)
  have b: "\<exists>w'. rollbackFailureWorkerWithin k self ?d w = Cancelled w'" for k
    unfolding loop by (rule poissonLoopWithin_Cancelled)
  have d: "rollbackFailureWorkerWithin (budget n self ?d ?s + k) self ?d w =
           poissonLoopWithin k self ?d (fst (turns n self ?d ?s)) (snd (turns n self ?d ?s))" for n k
    unfolding loop using poissonLoopWithin_turns[of n self ?d ?s k] by simp
  have c: "rollbackFailureWorkerWithin (budget n self ?d ?s) self ?d w =
           Cancelled (snd (poisson (fst (turns n self ?d ?s)) ?d (snd (turns n self ?d ?s))))" for n
    using d[of n 0] by (simp add: poissonLoopWithin_0)
  have e: "fst (turns (Suc n) self ?d ?s) =
             fst (turns n self ?d ?s) +
             ?d * exponentials (snd (turns n self ?d ?s)) (draws (snd (turns n self ?d ?s)))" for n
    by (simp add: turn_def poisson_def Let_def)
  have f: "history (snd (turns (Suc n) self ?d ?s)) =
             history (snd (turns n self ?d ?s)) @
             DelayUntil (fst (turns (Suc n) self ?d ?s)) #
             occurrence self (snd (poisson (fst (turns n self ?d ?s)) ?d (snd (turns n self ?d ?s))))" for n
    by (simp add: turn_history) (simp add: turn_def poisson_def Let_def)
  have g: "\<exists>n.
             rollbackFailureWorkerWithin k self ?d w =
               Cancelled (snd (poisson (fst (turns n self ?d ?s)) ?d (snd (turns n self ?d ?s))))
           \<or> rollbackFailureWorkerWithin k self ?d w =
               simulateFailureWithin 0 self
                 (snd (poisson (fst (turns n self ?d ?s)) ?d (snd (turns n self ?d ?s))))" for k
    unfolding loop by (rule poissonLoopWithin_cut)
  from a b c d e f g show ?thesis by blast
qed


theorem repeating_until_cancelled_witness:
  "multiple (RollbackWorkload_init (noOptions 0))
   \<and> rollbackFailureWorker (RollbackWorkload_init (noOptions 0)) 20
       (quiet (cluster [1] [2, 3, 4]) 1) = None
   \<and> (\<exists>w'. rollbackFailureWorkerWithin 2 (RollbackWorkload_init (noOptions 0)) 20
              (quiet (cluster [1] [2, 3, 4]) 1) = Cancelled w'
          \<and> history w' =
              [DelayUntil 20, attempting (host 1) (host 3), ClogPair 1 2 3, ClogPair 1 4 3,
               Delay 1, ClogInterface 1 3 ClogAll, ClogInterface 3 3 ClogAll, DelayUntil 40])"
proof -
  let ?self = "RollbackWorkload_init (noOptions 0)"
  let ?w = "quiet (cluster [1] [2, 3, 4]) 1"
  let ?w1 = "snd (poisson (clock ?w) 20 ?w)"
  let ?s1 = "turns (Suc 0) ?self 20 (clock ?w, ?w)"
  have m: "multiple ?self" and d: "meanDelay ?self = 20" and c: "clogDuration ?self = 3"
    and ef: "\<not> enableFailures ?self"
    by (simp_all add: RollbackWorkload_init_def noOptions_def getOption_def)
  note inst = repeating_until_cancelled[OF m, of ?w, unfolded d]
  have sel: "fst (sample ?w1) = Selected [host 2, host 3, host 4] (host 1) 1 (host 3)"
    by (rule sample_constant) (simp_all add: poisson_def emit_def quiet_def Let_def)
  have p: "passes ?w1 = 1" unfolding passes_def sel by simp
  have b: "budget (Suc 0) ?self 20 (clock ?w, ?w) = 2"
    unfolding budget.simps turns.simps fst_conv snd_conv p by simp
  have a1: "fst ?s1 = 20" by (simp add: turn_def poisson_def quiet_def Let_def)
  have occ: "occurrence ?self ?w1 =
      [attempting (host 1) (host 3), ClogPair 1 2 3, ClogPair 1 4 3,
       Delay 1, ClogInterface 1 3 ClogAll, ClogInterface 3 3 ClogAll]"
    unfolding occurrence_Selected[OF sel]
    by (simp add: linkFaults_def escalation_def otherReplicas_def c ef host_def upt_rec)
  have h1: "history (snd ?s1) = DelayUntil 20 # occurrence ?self ?w1"
    using inst[THEN conjunct2, THEN conjunct2, THEN conjunct2, THEN conjunct2, THEN conjunct2,
        THEN spec, of 0]
    by (simp add: a1) (simp add: quiet_def)
  have e1: "exponentials (snd ?s1) (draws (snd ?s1)) = 1"
    using sample_Selected(8)[OF sel]
    by (simp add: turn_def simulateFailure_def trigger_eq afterSelection_def poisson_def
        emit_def quiet_def Let_def)
  from inst have "rollbackFailureWorkerWithin (budget (Suc 0) ?self 20 (clock ?w, ?w)) ?self 20 ?w =
      Cancelled (snd (poisson (fst ?s1) 20 (snd ?s1)))"
    by blast
  then have run: "rollbackFailureWorkerWithin 2 ?self 20 ?w =
      Cancelled (snd (poisson (fst ?s1) 20 (snd ?s1)))"
    unfolding b .
  have hp: "history (snd (poisson a 20 x)) =
      history x @ [DelayUntil (a + 20 * exponentials x (draws x))]" for a x
    by (simp add: poisson_def emit_def Let_def)
  have "history (snd (poisson (fst ?s1) 20 (snd ?s1))) =
      [DelayUntil 20, attempting (host 1) (host 3), ClogPair 1 2 3, ClogPair 1 4 3,
       Delay 1, ClogInterface 1 3 ClogAll, ClogInterface 3 3 ClogAll, DelayUntil 40]"
    unfolding hp h1 occ a1 e1 by simp
  with run m inst show ?thesis by blast
qed

text \<open>
  C7. On a cluster with no tLogs or with no commit proxies the call returns early. It
  reads the cluster information once, and its only event is the informational trace event
  \<^verbatim>\<open>UnableToTriggerRollback\<close> with the reason \<^verbatim>\<open>No tlogs in System Map\<close> (the
  no candidates of the spec): no call on the simulator is made, and nothing else of the
  world changes.
\<close>

theorem no_candidates_noop:
  assumes "allPresentLogs (snapshot w) = [] \<or> commitProxies (snapshot w) = []"
  shows "fst (sample w) = Abort
         \<and> simulateFailure self w =
             w\<lparr>reads := Suc (reads w),
               history := history w @
                 [TraceEvent (Some SevInfo) ''UnableToTriggerRollback''
                    [(''Reason'', Text ''No tlogs in System Map'')]]\<rparr>
         \<and> occurrence self w =
             [TraceEvent (Some SevInfo) ''UnableToTriggerRollback''
                [(''Reason'', Text ''No tlogs in System Map'')]]
         \<and> filter isFault (occurrence self w) = []"
proof -
  have s: "sample w = (Abort, emit (unable ''No tlogs in System Map'') (w\<lparr>reads := Suc (reads w)\<rparr>))"
    using assms by (rule sample_empty)
  have h: "history (w\<lparr>reads := Suc (reads w)\<rparr>) = history w" by simp
  from s occurrence_unable[OF s h, of self] show ?thesis
    by (simp add: unable_def emit_def)
qed

theorem no_candidates_noop_witness:
  "occurrence (RollbackWorkload_init (noOptions 0)) (quiet (cluster [1] []) 1) =
     [TraceEvent (Some SevInfo) ''UnableToTriggerRollback''
        [(''Reason'', Text ''No tlogs in System Map'')]]
   \<and> occurrence (RollbackWorkload_init (noOptions 0)) (quiet (cluster [] [2, 3]) 1) =
     [TraceEvent (Some SevInfo) ''UnableToTriggerRollback''
        [(''Reason'', Text ''No tlogs in System Map'')]]"
proof -
  have a: "allPresentLogs (snapshot (quiet (cluster [1] []) 1)) = [] \<or>
           commitProxies (snapshot (quiet (cluster [1] []) 1)) = []"
    by (simp add: quiet_simps cluster_def)
  have b: "allPresentLogs (snapshot (quiet (cluster [] [2, 3]) 1)) = [] \<or>
           commitProxies (snapshot (quiet (cluster [] [2, 3]) 1)) = []"
    by (simp add: quiet_simps cluster_def)
  show ?thesis
    using no_candidates_noop[OF a, of "RollbackWorkload_init (noOptions 0)"]
      no_candidates_noop[OF b, of "RollbackWorkload_init (noOptions 0)"]
    by simp
qed

text \<open>
  The flag that selects the escalation is read from the option \<^verbatim>\<open>enableFailures\<close>.
  Options that hold \<^verbatim>\<open>enableFailures\<close> as true and no option \<^verbatim>\<open>aggressiveFailures\<close>
  set the flag: it is not false although \<^verbatim>\<open>aggressiveFailures\<close> is absent.
\<close>

theorem aggressiveFailures_absent_flag_set:
  "bool_options \<lparr>clientId = 0, double_options = Map.empty,
                 bool_options = [''enableFailures'' \<mapsto> True]\<rparr> ''aggressiveFailures'' = None
   \<and> enableFailures
       (RollbackWorkload_init
          \<lparr>clientId = 0, double_options = Map.empty,
           bool_options = [''enableFailures'' \<mapsto> True]\<rparr>) \<noteq> False"
  by (simp add: RollbackWorkload_init_def getOption_def)

text \<open>
  C8, amended. Each option has its default when the options do not hold its key, and the
  value the options give it otherwise: \<^verbatim>\<open>meanDelay\<close> 20, \<^verbatim>\<open>clogDuration\<close> 3,
  \<^verbatim>\<open>testDuration\<close> 10, \<^verbatim>\<open>multiple\<close> true, and the flag that selects the escalation,
  read from the option named \<^verbatim>\<open>enableFailures\<close>, false. An option named
  \<^verbatim>\<open>aggressiveFailures\<close> is not read: setting or removing it leaves the flag as it is.
\<close>

theorem option_defaults:
  "(double_options wcx ''meanDelay'' = None \<longrightarrow> meanDelay (RollbackWorkload_init wcx) = 20)
   \<and> (double_options wcx ''clogDuration'' = None \<longrightarrow> clogDuration (RollbackWorkload_init wcx) = 3)
   \<and> (double_options wcx ''testDuration'' = None \<longrightarrow> testDuration (RollbackWorkload_init wcx) = 10)
   \<and> (bool_options wcx ''multiple'' = None \<longrightarrow> multiple (RollbackWorkload_init wcx) = True)
   \<and> (bool_options wcx ''enableFailures'' = None \<longrightarrow>
        enableFailures (RollbackWorkload_init wcx) = False)
   \<and> (\<forall>v. double_options wcx ''meanDelay'' = Some v \<longrightarrow> meanDelay (RollbackWorkload_init wcx) = v)
   \<and> (\<forall>v. double_options wcx ''clogDuration'' = Some v \<longrightarrow>
            clogDuration (RollbackWorkload_init wcx) = v)
   \<and> (\<forall>v. double_options wcx ''testDuration'' = Some v \<longrightarrow>
            testDuration (RollbackWorkload_init wcx) = v)
   \<and> (\<forall>b. bool_options wcx ''multiple'' = Some b \<longrightarrow> multiple (RollbackWorkload_init wcx) = b)
   \<and> (\<forall>b. bool_options wcx ''enableFailures'' = Some b \<longrightarrow>
            enableFailures (RollbackWorkload_init wcx) = b)
   \<and> (\<forall>x. enableFailures
              (RollbackWorkload_init
                 (wcx\<lparr>bool_options := (bool_options wcx)(''aggressiveFailures'' := x)\<rparr>)) =
            enableFailures (RollbackWorkload_init wcx))"
  by (simp add: RollbackWorkload_init_def getOption_def)

theorem option_defaults_witness:
  "RollbackWorkload_init (noOptions 0) =
     \<lparr>enableFailures = False, multiple = True, enabled = True,
      meanDelay = 20, clogDuration = 3, testDuration = 10\<rparr>
   \<and> enableFailures
       (RollbackWorkload_init ((noOptions 0)\<lparr>bool_options := [''enableFailures'' \<mapsto> True]\<rparr>))
   \<and> meanDelay
       (RollbackWorkload_init ((noOptions 0)\<lparr>double_options := [''meanDelay'' \<mapsto> 5]\<rparr>)) = 5"
proof -
  have n: "double_options (noOptions 0) = Map.empty" "bool_options (noOptions 0) = Map.empty"
    "clientId (noOptions 0) = 0"
    by (simp_all add: noOptions_def)
  have a: "meanDelay (RollbackWorkload_init (noOptions 0)) = 20
        \<and> clogDuration (RollbackWorkload_init (noOptions 0)) = 3
        \<and> testDuration (RollbackWorkload_init (noOptions 0)) = 10
        \<and> multiple (RollbackWorkload_init (noOptions 0)) = True
        \<and> enableFailures (RollbackWorkload_init (noOptions 0)) = False"
    using option_defaults[of "noOptions 0"] by (simp add: n)
  have e: "enabled (RollbackWorkload_init (noOptions 0))"
    by (simp add: RollbackWorkload_init_def n)
  have b: "enableFailures
       (RollbackWorkload_init ((noOptions 0)\<lparr>bool_options := [''enableFailures'' \<mapsto> True]\<rparr>))"
    using option_defaults[of "(noOptions 0)\<lparr>bool_options := [''enableFailures'' \<mapsto> True]\<rparr>"]
    by auto
  have c: "meanDelay
       (RollbackWorkload_init ((noOptions 0)\<lparr>double_options := [''meanDelay'' \<mapsto> 5]\<rparr>)) = 5"
    using option_defaults[of "(noOptions 0)\<lparr>double_options := [''meanDelay'' \<mapsto> 5]\<rparr>"]
    by auto
  have "RollbackWorkload_init (noOptions 0) =
     \<lparr>enableFailures = False, multiple = True, enabled = True,
      meanDelay = 20, clogDuration = 3, testDuration = 10\<rparr>"
    using a e by (cases "RollbackWorkload_init (noOptions 0)") simp
  with b c show ?thesis by simp
qed

text \<open>
  C9. \<^verbatim>\<open>enabled\<close> is set exactly when \<^verbatim>\<open>clientId\<close> is 0. Under the simulator and with
  \<^verbatim>\<open>enabled\<close> set, \<^verbatim>\<open>start\<close> returns the worker, called with \<^verbatim>\<open>meanDelay\<close>, under
  the timeout of \<^verbatim>\<open>testDuration\<close>. In every other case it returns at once and leaves the
  world as it is, so nothing is added to the history. A workload made by the constructor
  is started exactly under the simulator on the client with id 0.
\<close>

theorem start_only_on_first_client:
  "enabled (RollbackWorkload_init wcx) = (clientId wcx = 0)
   \<and> (simulated w \<and> enabled self \<longrightarrow>
        start self w =
          Timeout (rollbackFailureWorker self (meanDelay self) w)
            ''RollbackFailureWorkerError'' (testDuration self))
   \<and> (\<not> (simulated w \<and> enabled self) \<longrightarrow> start self w = ReturnedVoid w)
   \<and> ((\<exists>run name seconds. start (RollbackWorkload_init wcx) w = Timeout run name seconds) =
        (simulated w \<and> clientId wcx = 0))"
  by (simp add: start_def RollbackWorkload_init_def)

theorem start_only_on_first_client_witness:
  "start (RollbackWorkload_init (noOptions 0)) (quiet (cluster [1] [2, 3, 4]) 1) =
     Timeout None ''RollbackFailureWorkerError'' 10
   \<and> start (RollbackWorkload_init (noOptions 1)) (quiet (cluster [1] [2, 3, 4]) 1) =
       ReturnedVoid (quiet (cluster [1] [2, 3, 4]) 1)
   \<and> start (RollbackWorkload_init (noOptions 0)) ((quiet (cluster [1] [2, 3, 4]) 1)\<lparr>simulated := False\<rparr>) =
       ReturnedVoid ((quiet (cluster [1] [2, 3, 4]) 1)\<lparr>simulated := False\<rparr>)"
proof -
  let ?w = "quiet (cluster [1] [2, 3, 4]) 1"
  have s: "simulated ?w" by (simp add: quiet_def)
  have e0: "enabled (RollbackWorkload_init (noOptions 0))"
    and e1: "\<not> enabled (RollbackWorkload_init (noOptions 1))"
    by (simp_all add: RollbackWorkload_init_def noOptions_def)
  have r: "rollbackFailureWorker (RollbackWorkload_init (noOptions 0))
             (meanDelay (RollbackWorkload_init (noOptions 0))) ?w = None"
    by (simp add: rollbackFailureWorker_def poissonLoop_None RollbackWorkload_init_def
        noOptions_def getOption_def)
  have t: "testDuration (RollbackWorkload_init (noOptions 0)) = 10"
    by (simp add: RollbackWorkload_init_def noOptions_def getOption_def)
  show ?thesis
    using start_only_on_first_client[of "noOptions 0" ?w "RollbackWorkload_init (noOptions 0)"]
      start_only_on_first_client[of "noOptions 1" ?w "RollbackWorkload_init (noOptions 1)"]
      start_only_on_first_client[of "noOptions 0" "?w\<lparr>simulated := False\<rparr>"
        "RollbackWorkload_init (noOptions 0)"]
      s e0 e1 r t
    by simp
qed

text \<open>
  C10. Take a call that does not return early, and let the second read of the cluster
  information, the one after the suspension, return any other value. The selection is the
  same, the events of the call are the same, and what follows the suspension is still the
  escalation on the proxy and the unclogged tLog chosen before the suspension.
\<close>

theorem reread_keeps_targets:
  assumes "fst (sample w) = Selected tlogs p i u"
  shows "fst (get_dbInfo (snd (sample (w\<lparr>dbInfo := (dbInfo w)(Suc (reads w) := other)\<rparr>)))) = other
         \<and> fst (sample (w\<lparr>dbInfo := (dbInfo w)(Suc (reads w) := other)\<rparr>)) = Selected tlogs p i u
         \<and> occurrence self (w\<lparr>dbInfo := (dbInfo w)(Suc (reads w) := other)\<rparr>) = occurrence self w
         \<and> dropWhile (\<lambda>e. e \<noteq> Delay (clogDuration self / 3))
             (occurrence self (w\<lparr>dbInfo := (dbInfo w)(Suc (reads w) := other)\<rparr>)) =
             Delay (clogDuration self / 3) #
             (if enableFailures self
              then [KillProcess (getProcessByAddress p) KillInstantly,
                    ClogInterface (ip u) (clogDuration self) ClogAll]
              else [ClogInterface (ip p) (clogDuration self) ClogAll,
                    ClogInterface (ip u) (clogDuration self) ClogAll])"
proof -
  let ?w = "w\<lparr>dbInfo := (dbInfo w)(Suc (reads w) := other)\<rparr>"
  have snap: "snapshot ?w = snapshot w" by (simp add: snapshot_def get_dbInfo_def)
  have cp: "chosenProxy ?w = chosenProxy w" by (simp add: chosenProxy_eq snap)
  have ci: "chosenIndex ?w = chosenIndex w" by (simp add: chosenIndex_eq snap)
  note sel = sample_Selected[OF assms]
  have ne: "allPresentLogs (snapshot ?w) \<noteq> []" "commitProxies (snapshot ?w) \<noteq> []"
    using sel(1,2,3) by (simp_all add: snap)
  have s: "sample ?w = (Selected tlogs p i u, afterSelection ?w)"
    using sel(1,4,5,6,7) by (simp add: sample_nonempty[OF ne] snap cp ci)
  then have f: "fst (sample ?w) = Selected tlogs p i u" by simp
  have a: "fst (get_dbInfo (snd (sample ?w))) = other"
    by (simp add: s afterSelection_def get_dbInfo_def)
  have b: "occurrence self ?w = occurrence self w"
    by (simp add: occurrence_Selected[OF f] occurrence_Selected[OF assms])
  have c: "dropWhile (\<lambda>e. e \<noteq> Delay (clogDuration self / 3)) (occurrence self ?w) =
           Delay (clogDuration self / 3) # escalation self p u"
    using f by (rule occurrence_after_delay)
  from a f b c show ?thesis by (simp add: escalation_def)
qed

theorem reread_keeps_targets_witness:
  "dropWhile (\<lambda>e. e \<noteq> Delay 1)
     (occurrence (RollbackWorkload_init (noOptions 0))
        ((quiet (cluster [1] [2, 3, 4]) 1)
           \<lparr>dbInfo := (dbInfo (quiet (cluster [1] [2, 3, 4]) 1))
              (Suc (reads (quiet (cluster [1] [2, 3, 4]) 1)) := cluster [7] [8, 9])\<rparr>)) =
     [Delay 1, ClogInterface 1 3 ClogAll, ClogInterface 3 3 ClogAll]"
  using reread_keeps_targets[OF sample_quiet_Selected, where self = "RollbackWorkload_init (noOptions 0)"
      and other = "cluster [7] [8, 9]", THEN conjunct2, THEN conjunct2, THEN conjunct2]
  by (simp add: RollbackWorkload_init_def noOptions_def getOption_def host_def)

end
